theory Spec2Isabelle
  imports Main
begin

section \<open>Ace Attorney pairing generator: the selection core of assets/main.js\<close>

subsection \<open>Data model\<close>

text \<open>
  A character is one entry of the roster document. The script reads the fields
  \<open>characterId\<close>, \<open>image\<close>, \<open>name\<close>, \<open>gender\<close> and \<open>tags\<close>. The identifier is
  only ever compared with \<open>===\<close>; it is a JSON scalar, or missing from the entry (a
  missing field reads as \<open>undefined\<close>, and \<open>undefined === undefined\<close> holds).
  The gender is kept as the string the script compares with \<open>"male"\<close> and \<open>"female"\<close>.
\<close>

datatype ident = IdAbsent | IdNum int | IdStr string

record character =
  characterId :: ident
  image :: string
  name :: string
  gender :: string
  tags :: "string list"

text \<open>The three result shapes of \<open>getPairing\<close>. A field holds \<open>None\<close> when the
  script stored \<open>undefined\<close> in it (an array read out of range).\<close>

datatype pairing =
    Hetero "character option" "character option"
  | MaleMale "character option" "character option"
  | FemaleFemale "character option" "character option"

text \<open>Reading a property of \<open>undefined\<close> raises a \<open>TypeError\<close>.\<close>

datatype error = TypeError

text \<open>The constants of \<open>MODES\<close>.\<close>

definition NORMAL :: string where "NORMAL = ''hetero''"
definition MM :: string where "MM = ''homo-male''"
definition FF :: string where "FF = ''homo-female''"

subsection \<open>Character repository\<close>

text \<open>\<open>Array.prototype.includes\<close> on an array of strings: a linear search.\<close>

fun includes_js :: "'a list \<Rightarrow> 'a \<Rightarrow> bool" where
  "includes_js [] t = False"
| "includes_js (x # xs) t = (if x = t then True else includes_js xs t)"

text \<open>\<open>getCharsByTag\<close> (lines 35 to 38); the global \<open>characters\<close> is the first
  argument, and the tag \<open>null\<close> (also the default of the parameter) is \<open>None\<close>.\<close>

definition getCharsByTag :: "character list \<Rightarrow> string option \<Rightarrow> character list" where
  "getCharsByTag characters tag =
     (case tag of
        None \<Rightarrow> characters
      | Some t \<Rightarrow> filter (\<lambda>c. includes_js (tags c) t) characters)"

subsection \<open>Random draws\<close>

text \<open>
  \<open>getRandomChar\<close> (lines 45 to 47) reads
  \<open>charArray[Math.floor(Math.random() * charArray.length)]\<close>. The product is a product
  of doubles, rounded by the machine; the model does not recompute it. One call of
  \<open>Math.random()\<close> is represented by its draw: the function that gives, for an array
  length \<open>n\<close>, the integer \<open>Math.floor(Math.random() * n)\<close> which the script's
  arithmetic yields for the number returned by that call.
\<close>

type_synonym draw = "nat \<Rightarrow> int"

text \<open>The draw of the call is the second argument. A read outside the array, also the
  read of index 0 of an empty array, gives \<open>undefined\<close>, here \<open>None\<close>.\<close>

definition getRandomChar :: "'a list \<Rightarrow> draw \<Rightarrow> 'a option" where
  "getRandomChar charArray r =
     (let i = r (length charArray)
      in if 0 \<le> i \<and> i < int (length charArray) then Some (charArray ! nat i) else None)"

text \<open>
  A random sequence \<open>rnd\<close> gives the draw of the \<open>k\<close>-th call of \<open>Math.random()\<close>
  during one run of \<open>getPairing\<close>. \<open>Math.random()\<close> returns a double in the half-open
  interval from 0 to 1. For such a number the floored product with an array length is
  never negative, and for a non-empty array it is below the length (the rounded
  product of a double below 1 and a length \<open>n\<close> is at most \<open>n\<close>, and it is \<open>n\<close> only
  for lengths far beyond those of an array).
\<close>

definition unit_draws :: "(nat \<Rightarrow> draw) \<Rightarrow> bool" where
  "unit_draws rnd = (\<forall>k n. 0 \<le> rnd k n \<and> rnd k (Suc n) < int (Suc n))"

subsection \<open>The redraw loops\<close>

text \<open>
  The three loops of \<open>getPairing\<close> (lines 78 to 80, 104 to 108, 126 to 130) have the
  shape
  \<^verbatim>\<open>do { x = getRandomChar(arr); } while (again(x));\<close>
  where evaluating the condition may raise. The loop may run forever, so the result is
  an option: \<open>None\<close> means that the loop never ends. \<open>k\<close> counts the calls of
  \<open>Math.random()\<close> made so far.
\<close>

partial_function (option) drawUntil ::
  "(character option \<Rightarrow> error + bool) \<Rightarrow> character list \<Rightarrow> (nat \<Rightarrow> draw) \<Rightarrow> nat
     \<Rightarrow> (error + character option) option" where
  "drawUntil again charArray rnd k =
     (let x = getRandomChar charArray (rnd k)
      in case again x of
           Inl e \<Rightarrow> Some (Inl e)
         | Inr b \<Rightarrow> if b then drawUntil again charArray rnd (Suc k) else Some (Inr x))"

text \<open>The loop conditions: \<open>sameCharacterId\<close> is the condition of line 80,
  \<open>sameImageOrId\<close> the one of lines 106 to 108 and 128 to 130. \<open>first\<close> is the
  character drawn before the loop, \<open>second\<close> the fresh draw. Each condition reads a
  property of the fresh draw and then the same property of the first character; either
  read raises when the value is \<open>undefined\<close>.\<close>

definition sameCharacterId :: "character option \<Rightarrow> character option \<Rightarrow> error + bool" where
  "sameCharacterId first second =
     (case second of
        None \<Rightarrow> Inl TypeError
      | Some s \<Rightarrow> (case first of None \<Rightarrow> Inl TypeError
                   | Some f \<Rightarrow> Inr (characterId s = characterId f)))"

definition sameImageOrId :: "string \<Rightarrow> character option \<Rightarrow> character option \<Rightarrow> error + bool" where
  "sameImageOrId subgroup first second =
     (case second of
        None \<Rightarrow> Inl TypeError
      | Some s \<Rightarrow> (case first of None \<Rightarrow> Inl TypeError
                   | Some f \<Rightarrow> Inr (image s = image f \<or>
                        ((subgroup = ''all'' \<or> subgroup = ''game'') \<and>
                         characterId s = characterId f))))"

subsection \<open>Pairing selector\<close>

text \<open>
  \<open>getPairing\<close> (lines 59 to 136), with the roster and the random sequence as
  arguments: \<open>rnd 0\<close> is the value of the first call of \<open>Math.random()\<close>, \<open>rnd 1\<close> of
  the second, and so on. The result is \<open>None\<close> when the call never returns,
  \<open>Some (Inl TypeError)\<close> when it raises, \<open>Some (Inr None)\<close> when it returns \<open>null\<close>
  and \<open>Some (Inr (Some p))\<close> when it returns the pairing \<open>p\<close>. The warnings written to
  the console are not part of the result. The default \<open>MODES.NORMAL\<close> of the parameter
  \<open>mode\<close> stands for a call without a mode; here the mode is always given.
\<close>

definition getPairing ::
  "character list \<Rightarrow> string \<Rightarrow> string \<Rightarrow> (nat \<Rightarrow> draw) \<Rightarrow> (error + pairing option) option" where
  "getPairing characters subgroup mode rnd =
     (let tag = (if subgroup = ''all'' then None else Some subgroup);
          subgroupChars = getCharsByTag characters tag
      in if mode = NORMAL then
           (let males = filter (\<lambda>c. gender c = ''male'') subgroupChars;
                females = filter (\<lambda>c. gender c = ''female'') subgroupChars
            in if length males = 0 \<or> length females = 0 then Some (Inr None)
               else
                 (let male = getRandomChar males (rnd 0)
                  in if subgroup = ''all'' \<or> subgroup = ''game'' then
                       (case drawUntil (sameCharacterId male) females rnd 1 of
                          None \<Rightarrow> None
                        | Some (Inl e) \<Rightarrow> Some (Inl e)
                        | Some (Inr female) \<Rightarrow> Some (Inr (Some (Hetero male female))))
                     else
                       (let female = getRandomChar females (rnd 1)
                        in Some (Inr (Some (Hetero male female))))))
         else if mode = MM then
           (let males = filter (\<lambda>c. gender c = ''male'') subgroupChars
            in if length males < 2 then Some (Inr None)
               else
                 (let male1 = getRandomChar males (rnd 0)
                  in case drawUntil (sameImageOrId subgroup male1) males rnd 1 of
                       None \<Rightarrow> None
                     | Some (Inl e) \<Rightarrow> Some (Inl e)
                     | Some (Inr male2) \<Rightarrow> Some (Inr (Some (MaleMale male1 male2)))))
         else if mode = FF then
           (let females = filter (\<lambda>c. gender c = ''female'') subgroupChars
            in if length females < 2 then Some (Inr None)
               else
                 (let female1 = getRandomChar females (rnd 0)
                  in case drawUntil (sameImageOrId subgroup female1) females rnd 1 of
                       None \<Rightarrow> None
                     | Some (Inl e) \<Rightarrow> Some (Inl e)
                     | Some (Inr female2) \<Rightarrow> Some (Inr (Some (FemaleFemale female1 female2)))))
         else Some (Inr None))"

subsection \<open>Notions used to state the properties\<close>

text \<open>The first and the second character of a pairing, as \<open>generatePairing\<close> reads
  them from the result (\<open>male\<close>/\<open>female\<close>, \<open>male1\<close>/\<open>male2\<close>,
  \<open>female1\<close>/\<open>female2\<close>).\<close>

fun char1 :: "pairing \<Rightarrow> character option" where
  "char1 (Hetero male female) = male"
| "char1 (MaleMale male1 male2) = male1"
| "char1 (FemaleFemale female1 female2) = female1"

fun char2 :: "pairing \<Rightarrow> character option" where
  "char2 (Hetero male female) = female"
| "char2 (MaleMale male1 male2) = male2"
| "char2 (FemaleFemale female1 female2) = female2"

text \<open>
  The candidate set in the words of the specification: the subgroup \<open>"all"\<close> stands for
  the full roster, any other subgroup for the characters whose tags contain it. The
  males and the females of a list are its entries of that gender, in order. Lemma
  \<open>getCharsByTag_candidate_set\<close> below shows that \<open>getPairing\<close> computes this set.
\<close>

definition candidate_set :: "character list \<Rightarrow> string \<Rightarrow> character list" where
  "candidate_set characters subgroup =
     [c \<leftarrow> characters. subgroup = ''all'' \<or> subgroup \<in> set (tags c)]"

definition males_in :: "character list \<Rightarrow> character list" where
  "males_in cs = [c \<leftarrow> cs. gender c = ''male'']"

definition females_in :: "character list \<Rightarrow> character list" where
  "females_in cs = [c \<leftarrow> cs. gender c = ''female'']"

text \<open>A random sequence draws every index of an array of length \<open>n\<close> again and again:
  after any call \<open>k\<close> there is a later call whose draw at length \<open>n\<close> is index \<open>i\<close>.\<close>

definition fair_draws :: "(nat \<Rightarrow> draw) \<Rightarrow> nat \<Rightarrow> bool" where
  "fair_draws rnd n = (\<forall>i<n. \<forall>k. \<exists>j\<ge>k. rnd j n = int i)"

text \<open>The result \<open>res\<close> of a redraw loop is explained by the draw of call \<open>j\<close>: the
  condition raised there, or it was false there and the draw is the result.\<close>

definition drawn_at ::
  "(character option \<Rightarrow> error + bool) \<Rightarrow> character list \<Rightarrow> (nat \<Rightarrow> draw) \<Rightarrow> nat
     \<Rightarrow> error + character option \<Rightarrow> bool" where
  "drawn_at again xs rnd j res =
     (case res of
        Inl e \<Rightarrow> again (getRandomChar xs (rnd j)) = Inl e
      | Inr x \<Rightarrow> x = getRandomChar xs (rnd j) \<and> again x = Inr False)"

subsection \<open>Example rosters and random sequences\<close>

text \<open>The two entries of the specification's example, with the identifier left open
  (the example gives an \<open>id\<close> field and no \<open>characterId\<close>), and two more entries.\<close>

definition phoenix :: "ident \<Rightarrow> character" where
  "phoenix i = \<lparr>characterId = i, image = ''phoenix1'', name = ''Phoenix'', gender = ''male'',
                tags = [''pw1'', ''game'']\<rparr>"

definition maya :: "ident \<Rightarrow> character" where
  "maya i = \<lparr>characterId = i, image = ''maya1'', name = ''Maya'', gender = ''female'',
             tags = [''pw1'', ''game'']\<rparr>"

definition mia :: "ident \<Rightarrow> character" where
  "mia i = \<lparr>characterId = i, image = ''mia1'', name = ''Mia'', gender = ''female'',
            tags = [''pw1'', ''game'']\<rparr>"

definition edgeworth :: "ident \<Rightarrow> character" where
  "edgeworth i = \<lparr>characterId = i, image = ''edgeworth1'', name = ''Edgeworth'',
                  gender = ''male'', tags = [''pw1'', ''game'']\<rparr>"

text \<open>A roster in which Phoenix and Maya carry the same identifier, so that the redraw
  of the opposite-gender mode rejects Maya after Phoenix.\<close>

definition roster_demo :: "character list" where
  "roster_demo = [phoenix (IdNum 1), edgeworth (IdNum 2), maya (IdNum 1), mia (IdNum 3)]"

text \<open>Four depictions with one identifier, tagged with an installment only.\<close>

definition roster_variants :: "character list" where
  "roster_variants =
     [\<lparr>characterId = IdNum 7, image = ''v1'', name = ''V'', gender = ''male'', tags = [''pw1'']\<rparr>,
      \<lparr>characterId = IdNum 7, image = ''v2'', name = ''V'', gender = ''male'', tags = [''pw1'']\<rparr>,
      \<lparr>characterId = IdNum 7, image = ''v3'', name = ''V'', gender = ''female'', tags = [''pw1'']\<rparr>,
      \<lparr>characterId = IdNum 7, image = ''v4'', name = ''V'', gender = ''female'', tags = [''pw1'']\<rparr>]"

text \<open>
  The draws of the numbers 0 and 1/2. Both products are exact in double arithmetic:
  \<open>Math.floor(0 * n)\<close> is 0 and \<open>Math.floor(0.5 * n)\<close> is \<open>n\<close> halved and rounded down.
\<close>

definition draw_zero :: draw where
  "draw_zero n = 0"

definition draw_half :: draw where
  "draw_half n = int (n div 2)"

text \<open>Two random sequences: \<open>Math.random()\<close> returns \<open>0, 0, 1/2, 0, 0, 1/2, \<dots>\<close> in the
  first and \<open>0, 1/2, 1/2, \<dots>\<close> in the second.\<close>

definition cycle3 :: "nat \<Rightarrow> draw" where
  "cycle3 k = (if k mod 3 = 2 then draw_half else draw_zero)"

definition first_then_half :: "nat \<Rightarrow> draw" where
  "first_then_half k = (if k = 0 then draw_zero else draw_half)"

section \<open>Auxiliary facts\<close>

subsection \<open>The candidate set\<close>

text \<open>\<open>includes\<close> is membership, and the list that \<open>getPairing\<close> obtains from
  \<open>getCharsByTag\<close> is the candidate set.\<close>

lemma includes_js_iff: "includes_js xs t \<longleftrightarrow> t \<in> set xs"
  by (induction xs) auto

lemma getCharsByTag_candidate_set:
  "getCharsByTag characters (if subgroup = ''all'' then None else Some subgroup)
     = candidate_set characters subgroup"
  by (simp add: getCharsByTag_def candidate_set_def includes_js_iff)

lemma candidate_set_mem:
  "c \<in> set (candidate_set characters subgroup)
     \<longleftrightarrow> c \<in> set characters \<and> (subgroup = ''all'' \<or> subgroup \<in> set (tags c))"
  by (auto simp: candidate_set_def)

lemma males_in_mem: "c \<in> set (males_in cs) \<longleftrightarrow> c \<in> set cs \<and> gender c = ''male''"
  by (auto simp: males_in_def)

lemma females_in_mem: "c \<in> set (females_in cs) \<longleftrightarrow> c \<in> set cs \<and> gender c = ''female''"
  by (auto simp: females_in_def)

subsection \<open>Draws\<close>

text \<open>A defined draw is an element of the array; the draw of a number in the unit
  interval selects an index inside a non-empty array.\<close>

lemma getRandomChar_mem: "getRandomChar xs r = Some x \<Longrightarrow> x \<in> set xs"
proof -
  assume a: "getRandomChar xs r = Some x"
  define i where "i = r (length xs)"
  from a have "0 \<le> i" and "i < int (length xs)" and "x = xs ! nat i"
    by (auto simp: getRandomChar_def Let_def i_def split: if_splits)
  then have "nat i < length xs" by linarith
  with \<open>x = xs ! nat i\<close> show ?thesis by simp
qed

lemma unit_draws_in_range:
  assumes "unit_draws rnd" and "0 < n"
  shows "0 \<le> rnd k n \<and> rnd k n < int n"
proof -
  from assms(2) obtain m where n: "n = Suc m" by (cases n) simp_all
  from assms(1) have "0 \<le> rnd k (Suc m)" and "rnd k (Suc m) < int (Suc m)"
    unfolding unit_draws_def by blast+
  with n show ?thesis by simp
qed

lemma getRandomChar_unit:
  assumes "unit_draws rnd" and "xs \<noteq> []"
  shows "getRandomChar xs (rnd k) = Some (xs ! nat (rnd k (length xs)))"
  using unit_draws_in_range [OF assms(1), of "length xs" k] assms(2)
  by (simp add: getRandomChar_def Let_def)

lemma getRandomChar_unit_draws:
  assumes "unit_draws rnd" and "xs \<noteq> []"
  shows "\<exists>x. getRandomChar xs (rnd k) = Some x \<and> x \<in> set xs"
proof -
  from getRandomChar_unit [OF assms]
  have eq: "getRandomChar xs (rnd k) = Some (xs ! nat (rnd k (length xs)))" .
  from getRandomChar_mem [OF eq] eq show ?thesis by simp
qed

lemma getRandomChar_singleton:
  assumes "unit_draws rnd"
  shows "getRandomChar [x] (rnd k) = Some x"
proof -
  from unit_draws_in_range [OF assms, of 1 k] have "rnd k (Suc 0) = 0" by simp
  then show ?thesis by (simp add: getRandomChar_def)
qed

lemma getRandomChar_in_set:
  "getRandomChar (males_in (candidate_set characters subgroup)) r = Some c
     \<Longrightarrow> c \<in> set characters \<and> (subgroup \<noteq> ''all'' \<longrightarrow> subgroup \<in> set (tags c))"
  "getRandomChar (females_in (candidate_set characters subgroup)) r = Some c
     \<Longrightarrow> c \<in> set characters \<and> (subgroup \<noteq> ''all'' \<longrightarrow> subgroup \<in> set (tags c))"
  using getRandomChar_mem [of "males_in (candidate_set characters subgroup)" r c]
        getRandomChar_mem [of "females_in (candidate_set characters subgroup)" r c]
  by (auto simp: males_in_mem females_in_mem candidate_set_mem)

subsection \<open>The redraw loop\<close>

text \<open>One turn of the loop, by the value of its condition.\<close>

lemma drawUntil_stop:
  "again (getRandomChar xs (rnd k)) = Inr False
     \<Longrightarrow> drawUntil again xs rnd k = Some (Inr (getRandomChar xs (rnd k)))"
  by (subst drawUntil.simps) (simp add: Let_def)

lemma drawUntil_again:
  "again (getRandomChar xs (rnd k)) = Inr True
     \<Longrightarrow> drawUntil again xs rnd k = drawUntil again xs rnd (Suc k)"
  by (subst drawUntil.simps) (simp add: Let_def)

lemma drawUntil_raise:
  "again (getRandomChar xs (rnd k)) = Inl e \<Longrightarrow> drawUntil again xs rnd k = Some (Inl e)"
  by (subst drawUntil.simps) (simp add: Let_def)

text \<open>Partial correctness, by the induction rule of the loop: a result comes from some
  draw at which the condition was false, or raised.\<close>

lemma drawUntil_result:
  assumes "drawUntil again xs rnd k = Some res"
  shows "\<exists>j\<ge>k. drawn_at again xs rnd j res"
proof (rule drawUntil.raw_induct
    [where P = "\<lambda>again xs rnd k res. \<exists>j\<ge>k. drawn_at again xs rnd j res", OF _ assms])
  fix loop again xs rnd k res
  assume IH: "\<And>again xs rnd k res. loop again xs rnd k = Some res
                \<Longrightarrow> \<exists>j\<ge>k. drawn_at again xs rnd j res"
    and body: "(let x = getRandomChar xs (rnd k)
                in case again x of Inl e \<Rightarrow> Some (Inl e)
                   | Inr b \<Rightarrow> if b then loop again xs rnd (Suc k) else Some (Inr x)) = Some res"
  show "\<exists>j\<ge>k. drawn_at again xs rnd j res"
  proof (cases "again (getRandomChar xs (rnd k))")
    case (Inl e)
    with body have "drawn_at again xs rnd k res" by (auto simp: Let_def drawn_at_def)
    then show ?thesis by blast
  next
    case (Inr b)
    show ?thesis
    proof (cases b)
      case True
      with Inr body have "loop again xs rnd (Suc k) = Some res" by (simp add: Let_def)
      from IH [OF this] obtain j where "Suc k \<le> j" and "drawn_at again xs rnd j res" by blast
      then show ?thesis by (intro exI [of _ j]) simp
    next
      case False
      with Inr body have "drawn_at again xs rnd k res" by (auto simp: Let_def drawn_at_def)
      then show ?thesis by blast
    qed
  qed
qed

lemma drawUntil_Inr:
  assumes "drawUntil again xs rnd k = Some (Inr x)"
  shows "again x = Inr False \<and> (\<exists>j\<ge>k. x = getRandomChar xs (rnd j))"
  using drawUntil_result [OF assms] by (auto simp: drawn_at_def)

lemma drawUntil_Inr_drawn:
  assumes "drawUntil again xs rnd k = Some (Inr x)"
  obtains j where "x = getRandomChar xs (rnd j)"
  using drawUntil_Inr [OF assms] by blast

text \<open>Termination: the loop ends as soon as some later draw does not make the condition
  true. It runs forever when every draw makes it true.\<close>

lemma drawUntil_returns:
  "again (getRandomChar xs (rnd (k + d))) \<noteq> Inr True \<Longrightarrow> \<exists>res. drawUntil again xs rnd k = Some res"
proof (induction d arbitrary: k)
  case 0
  then show ?case
    by (subst drawUntil.simps) (auto simp: Let_def split: sum.splits)
next
  case (Suc d)
  from Suc.prems have "again (getRandomChar xs (rnd (Suc k + d))) \<noteq> Inr True" by simp
  from Suc.IH [OF this] obtain res where "drawUntil again xs rnd (Suc k) = Some res" by blast
  then show ?case
    by (subst drawUntil.simps) (auto simp: Let_def split: sum.splits)
qed

lemma drawUntil_diverges:
  assumes "\<And>j. k \<le> j \<Longrightarrow> again (getRandomChar xs (rnd j)) = Inr True"
  shows "drawUntil again xs rnd k = None"
proof (rule ccontr)
  assume "drawUntil again xs rnd k \<noteq> None"
  then obtain res where "drawUntil again xs rnd k = Some res" by blast
  from drawUntil_result [OF this] obtain j where "k \<le> j" and "drawn_at again xs rnd j res"
    by blast
  with assms [of j] show False
    by (cases res) (auto simp: drawn_at_def)
qed

subsection \<open>The loop conditions\<close>

lemma sameCharacterId_False:
  "sameCharacterId first second = Inr False
     \<longleftrightarrow> (\<exists>f s. first = Some f \<and> second = Some s \<and> characterId s \<noteq> characterId f)"
  by (auto simp: sameCharacterId_def split: option.splits)

lemma sameCharacterId_defined:
  "sameCharacterId (Some m) (Some f) = Inr (characterId f = characterId m)"
  by (simp add: sameCharacterId_def)

lemma sameImageOrId_False:
  "sameImageOrId subgroup first second = Inr False
     \<longleftrightarrow> (\<exists>f s. first = Some f \<and> second = Some s \<and> image s \<noteq> image f \<and>
            ((subgroup = ''all'' \<or> subgroup = ''game'') \<longrightarrow> characterId s \<noteq> characterId f))"
  by (auto simp: sameImageOrId_def split: option.splits)

lemma drawUntil_unit_no_raise:
  assumes "unit_draws rnd" and "xs \<noteq> []" and "\<And>x. \<exists>b. again (Some x) = Inr b"
    and "drawUntil again xs rnd k = Some res"
  shows "\<exists>x. res = Inr (Some x) \<and> x \<in> set xs \<and> again (Some x) = Inr False"
proof -
  from drawUntil_result [OF assms(4)] obtain j where j: "drawn_at again xs rnd j res" by blast
  from getRandomChar_unit_draws [OF assms(1,2)] obtain x
    where x: "getRandomChar xs (rnd j) = Some x" "x \<in> set xs" by blast
  show ?thesis
  proof (cases res)
    case (Inl e)
    with j x(1) have "again (Some x) = Inl e" by (simp add: drawn_at_def)
    with assms(3) [of x] show ?thesis by simp
  next
    case (Inr y)
    with j x show ?thesis by (auto simp: drawn_at_def)
  qed
qed

subsection \<open>The three modes of the selector\<close>

text \<open>\<open>getPairing\<close> unfolded for each mode constant, over the candidate set.\<close>

lemma modes_distinct: "NORMAL \<noteq> MM" "NORMAL \<noteq> FF" "MM \<noteq> FF"
  by (simp_all add: NORMAL_def MM_def FF_def)

lemma getPairing_NORMAL:
  "getPairing characters subgroup NORMAL rnd =
     (if males_in (candidate_set characters subgroup) = [] \<or>
         females_in (candidate_set characters subgroup) = [] then Some (Inr None)
      else if subgroup = ''all'' \<or> subgroup = ''game'' then
        (case drawUntil
                (sameCharacterId (getRandomChar (males_in (candidate_set characters subgroup)) (rnd 0)))
                (females_in (candidate_set characters subgroup)) rnd 1 of
           None \<Rightarrow> None
         | Some (Inl e) \<Rightarrow> Some (Inl e)
         | Some (Inr female) \<Rightarrow>
             Some (Inr (Some (Hetero
               (getRandomChar (males_in (candidate_set characters subgroup)) (rnd 0)) female))))
      else Some (Inr (Some (Hetero
             (getRandomChar (males_in (candidate_set characters subgroup)) (rnd 0))
             (getRandomChar (females_in (candidate_set characters subgroup)) (rnd 1))))))"
  unfolding getPairing_def Let_def getCharsByTag_candidate_set males_in_def females_in_def
  by simp

lemma getPairing_MM:
  "getPairing characters subgroup MM rnd =
     (if length (males_in (candidate_set characters subgroup)) < 2 then Some (Inr None)
      else
        (case drawUntil
                (sameImageOrId subgroup
                   (getRandomChar (males_in (candidate_set characters subgroup)) (rnd 0)))
                (males_in (candidate_set characters subgroup)) rnd 1 of
           None \<Rightarrow> None
         | Some (Inl e) \<Rightarrow> Some (Inl e)
         | Some (Inr male2) \<Rightarrow>
             Some (Inr (Some (MaleMale
               (getRandomChar (males_in (candidate_set characters subgroup)) (rnd 0)) male2)))))"
  unfolding getPairing_def Let_def getCharsByTag_candidate_set males_in_def
  using modes_distinct by simp

lemma getPairing_FF:
  "getPairing characters subgroup FF rnd =
     (if length (females_in (candidate_set characters subgroup)) < 2 then Some (Inr None)
      else
        (case drawUntil
                (sameImageOrId subgroup
                   (getRandomChar (females_in (candidate_set characters subgroup)) (rnd 0)))
                (females_in (candidate_set characters subgroup)) rnd 1 of
           None \<Rightarrow> None
         | Some (Inl e) \<Rightarrow> Some (Inl e)
         | Some (Inr female2) \<Rightarrow>
             Some (Inr (Some (FemaleFemale
               (getRandomChar (females_in (candidate_set characters subgroup)) (rnd 0)) female2)))))"
  unfolding getPairing_def Let_def getCharsByTag_candidate_set females_in_def
  using modes_distinct by simp

lemma getPairing_other:
  "mode \<noteq> NORMAL \<Longrightarrow> mode \<noteq> MM \<Longrightarrow> mode \<noteq> FF
     \<Longrightarrow> getPairing characters subgroup mode rnd = Some (Inr None)"
  by (simp add: getPairing_def)

subsection \<open>The examples evaluated\<close>

lemmas eval_defs = candidate_set_def males_in_def females_in_def phoenix_def maya_def mia_def
  edgeworth_def getRandomChar_def cycle3_def first_then_half_def draw_zero_def draw_half_def
  sameCharacterId_def
  sameImageOrId_def roster_demo_def roster_variants_def

lemma draw_zero_unit: "0 \<le> draw_zero n \<and> draw_zero (Suc n) < int (Suc n)"
  by (simp add: draw_zero_def)

lemma draw_half_unit: "0 \<le> draw_half n \<and> draw_half (Suc n) < int (Suc n)"
proof -
  have "Suc n div 2 < Suc n" by presburger
  then have "int (Suc n div 2) < int (Suc n)" by (simp only: of_nat_less_iff)
  then show ?thesis by (simp add: draw_half_def)
qed

lemma unit_draws_const_half: "unit_draws (\<lambda>k. draw_half)"
  unfolding unit_draws_def using draw_half_unit by blast

lemma unit_draws_cycle3: "unit_draws cycle3"
  unfolding unit_draws_def
proof (intro allI)
  fix k n
  show "0 \<le> cycle3 k n \<and> cycle3 k (Suc n) < int (Suc n)"
  proof (cases "k mod 3 = 2")
    case True
    then have e: "cycle3 k = draw_half" by (simp add: cycle3_def)
    show ?thesis unfolding e by (rule draw_half_unit)
  next
    case False
    then have e: "cycle3 k = draw_zero" by (simp add: cycle3_def)
    show ?thesis unfolding e by (rule draw_zero_unit)
  qed
qed

lemma unit_draws_first_then_half: "unit_draws first_then_half"
  unfolding unit_draws_def
proof (intro allI)
  fix k n
  show "0 \<le> first_then_half k n \<and> first_then_half k (Suc n) < int (Suc n)"
  proof (cases "k = 0")
    case True
    then have e: "first_then_half k = draw_zero" by (simp add: first_then_half_def)
    show ?thesis unfolding e by (rule draw_zero_unit)
  next
    case False
    then have e: "first_then_half k = draw_half" by (simp add: first_then_half_def)
    show ?thesis unfolding e by (rule draw_half_unit)
  qed
qed

lemma fair_draws_cycle3: "fair_draws cycle3 2"
  unfolding fair_draws_def
proof (intro allI impI)
  fix i k :: nat
  assume "i < 2"
  then consider "i = 0" | "i = 1" by linarith
  then show "\<exists>j\<ge>k. cycle3 j 2 = int i"
  proof cases
    case 1
    have "3 * k \<ge> k" and "cycle3 (3 * k) 2 = 0" by (simp_all add: cycle3_def draw_zero_def)
    with 1 show ?thesis by (intro exI [of _ "3 * k"]) simp
  next
    case 2
    have m: "(3 * k + 2) mod 3 = 2" by presburger
    have c: "cycle3 (3 * k + 2) = draw_half" by (simp only: cycle3_def m refl if_True)
    have "cycle3 (3 * k + 2) 2 = 1" unfolding c by (simp add: draw_half_def)
    moreover have "3 * k + 2 \<ge> k" by simp
    ultimately show ?thesis using 2 by (intro exI [of _ "3 * k + 2"]) simp
  qed
qed

lemma demo_game_hetero:
  "getPairing roster_demo ''game'' NORMAL cycle3
     = Some (Inr (Some (Hetero (Some (phoenix (IdNum 1))) (Some (mia (IdNum 3))))))"
  by (simp add: getPairing_NORMAL eval_defs drawUntil_stop drawUntil_again)

lemma demo_all_mm:
  "getPairing roster_demo ''all'' MM cycle3
     = Some (Inr (Some (MaleMale (Some (phoenix (IdNum 1))) (Some (edgeworth (IdNum 2))))))"
  by (simp add: getPairing_MM eval_defs drawUntil_stop drawUntil_again)

lemma demo_pw1_ff:
  "getPairing roster_demo ''pw1'' FF cycle3
     = Some (Inr (Some (FemaleFemale (Some (maya (IdNum 1))) (Some (mia (IdNum 3))))))"
  by (simp add: getPairing_FF eval_defs drawUntil_stop drawUntil_again)

section \<open>Properties\<close>

text \<open>
  C1. For every roster and every random sequence: when \<open>getPairing\<close> is called with
  the subgroup \<open>"all"\<close> or \<open>"game"\<close> and returns a pairing, in any mode, both
  characters of the pairing are defined and their \<open>characterId\<close> values differ.
\<close>

theorem getPairing_all_game_distinct_characterId:
  assumes "subgroup = ''all'' \<or> subgroup = ''game''"
    and "getPairing characters subgroup mode rnd = Some (Inr (Some p))"
  shows "\<exists>a b. char1 p = Some a \<and> char2 p = Some b \<and> characterId a \<noteq> characterId b"
proof -
  consider "mode = NORMAL" | "mode = MM" | "mode = FF"
    | "mode \<noteq> NORMAL" "mode \<noteq> MM" "mode \<noteq> FF" by blast
  then show ?thesis
  proof cases
    case 1
    with assms obtain male female where p: "p = Hetero male female"
      and "drawUntil (sameCharacterId male)
             (females_in (candidate_set characters subgroup)) rnd 1 = Some (Inr female)"
      by (auto simp: getPairing_NORMAL split: if_splits option.splits sum.splits)
    from drawUntil_Inr [OF this(2)] have "sameCharacterId male female = Inr False" by simp
    with p show ?thesis by (auto simp: sameCharacterId_False)
  next
    case 2
    with assms obtain male1 male2 where p: "p = MaleMale male1 male2"
      and "drawUntil (sameImageOrId subgroup male1)
             (males_in (candidate_set characters subgroup)) rnd 1 = Some (Inr male2)"
      by (auto simp: getPairing_MM split: if_splits option.splits sum.splits)
    from drawUntil_Inr [OF this(2)] have "sameImageOrId subgroup male1 male2 = Inr False" by simp
    with p assms(1) show ?thesis by (auto simp: sameImageOrId_False)
  next
    case 3
    with assms obtain female1 female2 where p: "p = FemaleFemale female1 female2"
      and "drawUntil (sameImageOrId subgroup female1)
             (females_in (candidate_set characters subgroup)) rnd 1 = Some (Inr female2)"
      by (auto simp: getPairing_FF split: if_splits option.splits sum.splits)
    from drawUntil_Inr [OF this(2)] have "sameImageOrId subgroup female1 female2 = Inr False" by simp
    with p assms(1) show ?thesis by (auto simp: sameImageOrId_False)
  next
    case 4
    with assms(2) show ?thesis by (simp add: getPairing_other)
  qed
qed

theorem getPairing_all_game_distinct_characterId_witness:
  "getPairing roster_demo ''game'' NORMAL cycle3
     = Some (Inr (Some (Hetero (Some (phoenix (IdNum 1))) (Some (mia (IdNum 3)))))) \<and>
   characterId (phoenix (IdNum 1)) \<noteq> characterId (mia (IdNum 3))"
  using getPairing_all_game_distinct_characterId [of "''game''" roster_demo NORMAL cycle3, OF _ demo_game_hetero] demo_game_hetero
  by simp

text \<open>
  C2. For every roster, subgroup and random sequence: when \<open>getPairing\<close> returns a
  pairing in the male-male or the female-female mode, both characters are defined and
  their \<open>image\<close> values differ.
\<close>

theorem getPairing_same_gender_distinct_image:
  assumes "mode = MM \<or> mode = FF"
    and "getPairing characters subgroup mode rnd = Some (Inr (Some p))"
  shows "\<exists>a b. char1 p = Some a \<and> char2 p = Some b \<and> image a \<noteq> image b"
  using assms(1)
proof
  assume "mode = MM"
  with assms obtain male1 male2 where p: "p = MaleMale male1 male2"
    and "drawUntil (sameImageOrId subgroup male1)
           (males_in (candidate_set characters subgroup)) rnd 1 = Some (Inr male2)"
    by (auto simp: getPairing_MM split: if_splits option.splits sum.splits)
  from drawUntil_Inr [OF this(2)] have "sameImageOrId subgroup male1 male2 = Inr False" by simp
  with p show ?thesis by (auto simp: sameImageOrId_False)
next
  assume "mode = FF"
  with assms obtain female1 female2 where p: "p = FemaleFemale female1 female2"
    and "drawUntil (sameImageOrId subgroup female1)
           (females_in (candidate_set characters subgroup)) rnd 1 = Some (Inr female2)"
    by (auto simp: getPairing_FF split: if_splits option.splits sum.splits)
  from drawUntil_Inr [OF this(2)] have "sameImageOrId subgroup female1 female2 = Inr False" by simp
  with p show ?thesis by (auto simp: sameImageOrId_False)
qed

theorem getPairing_same_gender_distinct_image_witness:
  "getPairing roster_demo ''all'' MM cycle3
     = Some (Inr (Some (MaleMale (Some (phoenix (IdNum 1))) (Some (edgeworth (IdNum 2)))))) \<and>
   image (phoenix (IdNum 1)) \<noteq> image (edgeworth (IdNum 2))"
  using getPairing_same_gender_distinct_image [of MM roster_demo "''all''" cycle3, OF _ demo_all_mm] demo_all_mm
  by simp

text \<open>
  C3. When the candidate set of the subgroup has at least one male and at least one
  female, and the random numbers lie in the unit interval, every result that
  \<open>getPairing\<close> returns in the opposite-gender mode is a pairing whose \<open>male\<close> has
  gender \<open>"male"\<close> and whose \<open>female\<close> has gender \<open>"female"\<close>; it is never
  \<open>null\<close> and never an exception. For a subgroup other than \<open>"all"\<close> and
  \<open>"game"\<close> the call does return.
\<close>

theorem getPairing_hetero_genders:
  assumes "males_in (candidate_set characters subgroup) \<noteq> []"
    and "females_in (candidate_set characters subgroup) \<noteq> []"
    and "unit_draws rnd"
  shows "(\<forall>res. getPairing characters subgroup NORMAL rnd = Some res \<longrightarrow>
            (\<exists>m f. res = Inr (Some (Hetero (Some m) (Some f))) \<and>
                    gender m = ''male'' \<and> gender f = ''female'')) \<and>
         (subgroup \<noteq> ''all'' \<and> subgroup \<noteq> ''game'' \<longrightarrow>
            getPairing characters subgroup NORMAL rnd \<noteq> None)"
proof -
  let ?males = "males_in (candidate_set characters subgroup)"
  let ?females = "females_in (candidate_set characters subgroup)"
  from getRandomChar_unit_draws [OF assms(3,1)] obtain m
    where m: "getRandomChar ?males (rnd 0) = Some m" "m \<in> set ?males" by blast
  from getRandomChar_unit_draws [OF assms(3,2)] obtain f1
    where f1: "getRandomChar ?females (rnd 1) = Some f1" "f1 \<in> set ?females" by blast
  have gm: "gender m = ''male''" using m(2) by (simp add: males_in_mem)
  have "\<exists>m f. res = Inr (Some (Hetero (Some m) (Some f))) \<and>
               gender m = ''male'' \<and> gender f = ''female''"
    if res: "getPairing characters subgroup NORMAL rnd = Some res" for res
  proof (cases "subgroup = ''all'' \<or> subgroup = ''game''")
    case True
    with res assms(1,2) m(1) obtain r
      where r: "drawUntil (sameCharacterId (Some m)) ?females rnd 1 = Some r"
      by (auto simp: getPairing_NORMAL split: option.splits)
    have "\<exists>b. sameCharacterId (Some m) (Some x) = Inr b" for x
      by (simp add: sameCharacterId_defined)
    from drawUntil_unit_no_raise [OF assms(3,2) this r] obtain f
      where f: "r = Inr (Some f)" "f \<in> set ?females" by blast
    from res True assms(1,2) m(1) r f(1)
    have "res = Inr (Some (Hetero (Some m) (Some f)))"
      by (simp add: getPairing_NORMAL)
    with gm f(2) show ?thesis by (simp add: females_in_mem)
  next
    case False
    with res assms(1,2) m(1) f1(1)
    have "res = Inr (Some (Hetero (Some m) (Some f1)))"
      by (auto simp: getPairing_NORMAL)
    with gm f1(2) show ?thesis by (simp add: females_in_mem)
  qed
  moreover have "getPairing characters subgroup NORMAL rnd \<noteq> None"
    if "subgroup \<noteq> ''all'' \<and> subgroup \<noteq> ''game''"
    using that assms(1,2) by (simp add: getPairing_NORMAL)
  ultimately show ?thesis by blast
qed

theorem getPairing_hetero_genders_witness:
  "getPairing roster_demo ''game'' NORMAL cycle3
     = Some (Inr (Some (Hetero (Some (phoenix (IdNum 1))) (Some (mia (IdNum 3)))))) \<and>
   gender (phoenix (IdNum 1)) = ''male'' \<and> gender (mia (IdNum 3)) = ''female'' \<and>
   getPairing roster_demo ''pw1'' NORMAL cycle3 \<noteq> None"
proof -
  have "males_in (candidate_set roster_demo ''game'') \<noteq> []"
    and "females_in (candidate_set roster_demo ''game'') \<noteq> []"
    and "males_in (candidate_set roster_demo ''pw1'') \<noteq> []"
    and "females_in (candidate_set roster_demo ''pw1'') \<noteq> []"
    by (simp_all add: eval_defs)
  from getPairing_hetero_genders [OF this(1,2) unit_draws_cycle3] getPairing_hetero_genders [OF this(3,4) unit_draws_cycle3]
    demo_game_hetero
  show ?thesis by simp
qed

text \<open>
  C4. \<open>getCharsByTag(null)\<close> is the whole roster, in its order. For a tag string,
  \<open>getCharsByTag(tag)\<close> is the roster restricted to the positions whose character
  has the tag among its tags, in the roster's order; when no character has the tag, the
  result is the empty list. The function is total: there is no error result.
\<close>

theorem getCharsByTag_contract:
  "getCharsByTag characters None = characters \<and>
   getCharsByTag characters (Some tag) =
     nths characters {i. i < length characters \<and> tag \<in> set (tags (characters ! i))} \<and>
   ((\<forall>c\<in>set characters. tag \<notin> set (tags c)) \<longrightarrow> getCharsByTag characters (Some tag) = [])"
proof -
  have "getCharsByTag characters (Some tag) = filter (\<lambda>c. tag \<in> set (tags c)) characters"
    by (simp add: getCharsByTag_def includes_js_iff)
  moreover have "filter (\<lambda>c. tag \<in> set (tags c)) characters =
      nths characters {i. i < length characters \<and> tag \<in> set (tags (characters ! i))}"
    by (rule filter_eq_nths)
  moreover have "(\<forall>c\<in>set characters. tag \<notin> set (tags c)) \<longrightarrow>
      filter (\<lambda>c. tag \<in> set (tags c)) characters = []"
    by (simp add: filter_empty_conv)
  moreover have "getCharsByTag characters None = characters"
    by (simp add: getCharsByTag_def)
  ultimately show ?thesis by simp
qed

theorem getCharsByTag_contract_witness:
  "getCharsByTag roster_demo None = roster_demo \<and>
   getCharsByTag roster_demo (Some ''aa6'') = []"
proof -
  have "\<forall>c\<in>set roster_demo. ''aa6'' \<notin> set (tags c)"
    by (simp add: eval_defs)
  moreover from getCharsByTag_contract [of roster_demo "''aa6''"]
  have "getCharsByTag roster_demo None = roster_demo"
    and "(\<forall>c\<in>set roster_demo. ''aa6'' \<notin> set (tags c)) \<longrightarrow>
         getCharsByTag roster_demo (Some ''aa6'') = []"
    by blast+
  ultimately show ?thesis by blast
qed

text \<open>
  C5. When the candidate set of the subgroup has no male, \<open>getPairing\<close> returns
  \<open>null\<close> in the opposite-gender mode and in the male-male mode; in the male-male
  mode it also returns \<open>null\<close> whenever the candidate set has fewer than two males.
\<close>

theorem getPairing_too_few_males:
  "(males_in (candidate_set characters subgroup) = [] \<longrightarrow>
      getPairing characters subgroup NORMAL rnd = Some (Inr None) \<and>
      getPairing characters subgroup MM rnd = Some (Inr None)) \<and>
   (length (males_in (candidate_set characters subgroup)) < 2 \<longrightarrow>
      getPairing characters subgroup MM rnd = Some (Inr None))"
  by (simp add: getPairing_NORMAL getPairing_MM)

theorem getPairing_too_few_males_witness:
  "getPairing [maya (IdNum 2)] ''all'' NORMAL cycle3 = Some (Inr None) \<and>
   getPairing [maya (IdNum 2)] ''all'' MM cycle3 = Some (Inr None) \<and>
   getPairing [phoenix (IdNum 1), maya (IdNum 2)] ''pw1'' MM cycle3 = Some (Inr None)"
proof -
  have "males_in (candidate_set [maya (IdNum 2)] ''all'') = []"
    and "length (males_in (candidate_set [phoenix (IdNum 1), maya (IdNum 2)] ''pw1'')) < 2"
    by (simp_all add: eval_defs)
  with getPairing_too_few_males [of "[maya (IdNum 2)]" "''all''" cycle3]
    getPairing_too_few_males [of "[phoenix (IdNum 1), maya (IdNum 2)]" "''pw1''" cycle3]
  show ?thesis by simp
qed

text \<open>
  C6. For every roster and subgroup, a mode string that is none of \<open>"hetero"\<close>,
  \<open>"homo-male"\<close>, \<open>"homo-female"\<close> makes \<open>getPairing\<close> return \<open>null\<close>: it returns,
  and it does not raise.
\<close>

theorem getPairing_invalid_mode:
  assumes "mode \<noteq> ''hetero''" and "mode \<noteq> ''homo-male''" and "mode \<noteq> ''homo-female''"
  shows "getPairing characters subgroup mode rnd = Some (Inr None)"
  using assms by (simp add: getPairing_def NORMAL_def MM_def FF_def)

theorem getPairing_invalid_mode_witness:
  "getPairing [] ''all'' ''normal'' (\<lambda>k. draw_zero) = Some (Inr None)"
  using getPairing_invalid_mode [of "''normal''" "[]" "''all''" "\<lambda>k. draw_zero"] by simp

text \<open>
  C7. Opposite-gender mode, subgroup \<open>"all"\<close> or \<open>"game"\<close>, random numbers in the
  unit interval, a male drawn and at least one female in the candidate set. If every
  female has the \<open>characterId\<close> of the drawn male, \<open>getPairing\<close> never returns. For
  a random sequence that selects every female again and again, \<open>getPairing\<close> returns
  if and only if some female has a \<open>characterId\<close> different from the male's.
\<close>

theorem getPairing_hetero_redraw_termination:
  assumes sg: "subgroup = ''all'' \<or> subgroup = ''game''"
    and unit: "unit_draws rnd"
    and fne: "females_in (candidate_set characters subgroup) \<noteq> []"
    and male: "getRandomChar (males_in (candidate_set characters subgroup)) (rnd 0) = Some male"
  shows "((\<forall>f\<in>set (females_in (candidate_set characters subgroup)).
             characterId f = characterId male) \<longrightarrow>
            getPairing characters subgroup NORMAL rnd = None) \<and>
         (fair_draws rnd (length (females_in (candidate_set characters subgroup))) \<longrightarrow>
            ((\<exists>res. getPairing characters subgroup NORMAL rnd = Some res) \<longleftrightarrow>
             (\<exists>f\<in>set (females_in (candidate_set characters subgroup)).
                characterId f \<noteq> characterId male)))"
proof -
  let ?males = "males_in (candidate_set characters subgroup)"
  let ?females = "females_in (candidate_set characters subgroup)"
  let ?loop = "drawUntil (sameCharacterId (Some male)) ?females rnd 1"
  from getRandomChar_mem [OF male] have mne: "?males \<noteq> []" by auto
  have gp: "getPairing characters subgroup NORMAL rnd =
      (case ?loop of None \<Rightarrow> None | Some (Inl e) \<Rightarrow> Some (Inl e)
       | Some (Inr female) \<Rightarrow> Some (Inr (Some (Hetero (Some male) female))))"
    unfolding getPairing_NORMAL male using sg fne mne by simp
  have diverges: "getPairing characters subgroup NORMAL rnd = None"
    if same: "\<forall>f\<in>set ?females. characterId f = characterId male"
  proof -
    have "sameCharacterId (Some male) (getRandomChar ?females (rnd j)) = Inr True" for j
    proof -
      from getRandomChar_unit_draws [OF unit fne] obtain x
        where "getRandomChar ?females (rnd j) = Some x" and "x \<in> set ?females" by blast
      with same show ?thesis by (simp add: sameCharacterId_defined)
    qed
    then have "?loop = None" by (intro drawUntil_diverges) simp
    with gp show ?thesis by simp
  qed
  have returns: "\<exists>res. getPairing characters subgroup NORMAL rnd = Some res"
    if fair: "fair_draws rnd (length ?females)"
      and other: "\<exists>f\<in>set ?females. characterId f \<noteq> characterId male"
  proof -
    from other obtain i where i: "i < length ?females"
      and diff: "characterId (?females ! i) \<noteq> characterId male"
      by (auto simp: in_set_conv_nth)
    from fair i obtain j where j: "1 \<le> j"
      and fl: "rnd j (length ?females) = int i"
      unfolding fair_draws_def by blast
    from getRandomChar_unit [OF unit fne, of j] fl
    have "getRandomChar ?females (rnd j) = Some (?females ! i)" by simp
    with diff have "sameCharacterId (Some male) (getRandomChar ?females (rnd j)) \<noteq> Inr True"
      by (simp add: sameCharacterId_defined)
    moreover from j have "j = 1 + (j - 1)" by simp
    ultimately have "sameCharacterId (Some male) (getRandomChar ?females (rnd (1 + (j - 1))))
        \<noteq> Inr True" by simp
    from drawUntil_returns
      [of "sameCharacterId (Some male)" ?females rnd 1 "j - 1", OF this]
    obtain r where "?loop = Some r" by blast
    with gp show ?thesis by (cases r) simp_all
  qed
  have "\<exists>f\<in>set ?females. characterId f \<noteq> characterId male"
    if "getPairing characters subgroup NORMAL rnd = Some res" for res
  proof (rule ccontr)
    assume "\<not> (\<exists>f\<in>set ?females. characterId f \<noteq> characterId male)"
    then have "\<forall>f\<in>set ?females. characterId f = characterId male" by blast
    from diverges [OF this] that show False by simp
  qed
  with diverges returns show ?thesis by blast
qed

theorem getPairing_hetero_redraw_termination_witness:
  "getPairing [phoenix (IdNum 1), maya (IdNum 1)] ''all'' NORMAL cycle3 = None \<and>
   (\<exists>res. getPairing roster_demo ''game'' NORMAL cycle3 = Some res)"
proof -
  let ?same = "[phoenix (IdNum 1), maya (IdNum 1)]"
  have same: "females_in (candidate_set ?same ''all'') \<noteq> []"
    "getRandomChar (males_in (candidate_set ?same ''all'')) (cycle3 0) = Some (phoenix (IdNum 1))"
    "\<forall>f\<in>set (females_in (candidate_set ?same ''all'')).
       characterId f = characterId (phoenix (IdNum 1))"
    by (simp_all add: eval_defs)
  have demo: "females_in (candidate_set roster_demo ''game'') \<noteq> []"
    "getRandomChar (males_in (candidate_set roster_demo ''game'')) (cycle3 0)
       = Some (phoenix (IdNum 1))"
    "length (females_in (candidate_set roster_demo ''game'')) = 2"
    "\<exists>f\<in>set (females_in (candidate_set roster_demo ''game'')).
       characterId f \<noteq> characterId (phoenix (IdNum 1))"
    by (simp_all add: eval_defs)
  from getPairing_hetero_redraw_termination [OF _ unit_draws_cycle3 same(1,2)] same(3)
  have "getPairing ?same ''all'' NORMAL cycle3 = None" by simp
  moreover from getPairing_hetero_redraw_termination [OF _ unit_draws_cycle3 demo(1,2)] demo(3,4) fair_draws_cycle3
  have "\<exists>res. getPairing roster_demo ''game'' NORMAL cycle3 = Some res" by simp
  ultimately show ?thesis by simp
qed

text \<open>
  C8. On the roster of Phoenix and Maya, \<open>getPairing("pw1", "hetero")\<close> returns
  \<open>{male: Phoenix, female: Maya}\<close> for every random sequence with values in the unit
  interval, whatever the identifiers of the two entries are.
\<close>

theorem getPairing_example_pw1:
  assumes "unit_draws rnd"
  shows "getPairing [phoenix i, maya j] ''pw1'' ''hetero'' rnd
           = Some (Inr (Some (Hetero (Some (phoenix i)) (Some (maya j)))))"
proof -
  have cs: "candidate_set [phoenix i, maya j] ''pw1'' = [phoenix i, maya j]"
    by (simp add: candidate_set_def phoenix_def maya_def)
  have m: "males_in [phoenix i, maya j] = [phoenix i]"
    by (simp add: males_in_def phoenix_def maya_def)
  have f: "females_in [phoenix i, maya j] = [maya j]"
    by (simp add: females_in_def phoenix_def maya_def)
  have "getPairing [phoenix i, maya j] ''pw1'' NORMAL rnd
           = Some (Inr (Some (Hetero (Some (phoenix i)) (Some (maya j)))))"
    by (simp add: getPairing_NORMAL cs m f getRandomChar_singleton [OF assms])
  then show ?thesis by (simp add: NORMAL_def)
qed

theorem getPairing_example_pw1_witness:
  "getPairing [phoenix (IdNum 1), maya (IdNum 2)] ''pw1'' ''hetero'' (\<lambda>k. draw_half)
     = Some (Inr (Some (Hetero (Some (phoenix (IdNum 1))) (Some (maya (IdNum 2))))))"
proof -
  from getPairing_example_pw1 [OF unit_draws_const_half] show ?thesis .
qed

text \<open>
  C9. Every character of a pairing returned by \<open>getPairing\<close> is an entry of the
  roster, and when the subgroup is not \<open>"all"\<close> its tags contain the subgroup. With
  random numbers in the unit interval both characters of the pairing are defined.
\<close>

theorem getPairing_members_in_candidate_set:
  assumes "getPairing characters subgroup mode rnd = Some (Inr (Some p))"
  shows "(\<forall>c. char1 p = Some c \<or> char2 p = Some c \<longrightarrow>
            c \<in> set characters \<and> (subgroup \<noteq> ''all'' \<longrightarrow> subgroup \<in> set (tags c))) \<and>
         (unit_draws rnd \<longrightarrow> (\<exists>a b. char1 p = Some a \<and> char2 p = Some b))"
proof -
  let ?males = "males_in (candidate_set characters subgroup)"
  let ?females = "females_in (candidate_set characters subgroup)"
  have "\<exists>i j. ((char1 p = getRandomChar ?males (rnd i) \<and> ?males \<noteq> []) \<or>
               (char1 p = getRandomChar ?females (rnd i) \<and> ?females \<noteq> [])) \<and>
              ((char2 p = getRandomChar ?males (rnd j) \<and> ?males \<noteq> []) \<or>
               (char2 p = getRandomChar ?females (rnd j) \<and> ?females \<noteq> []))"
  proof -
    consider "mode = NORMAL" | "mode = MM" | "mode = FF"
      | "mode \<noteq> NORMAL" "mode \<noteq> MM" "mode \<noteq> FF" by blast
    then show ?thesis
    proof cases
      case 1
      show ?thesis
      proof (cases "subgroup = ''all'' \<or> subgroup = ''game''")
        case True
        with 1 assms obtain female where p: "p = Hetero (getRandomChar ?males (rnd 0)) female"
          and ne: "?males \<noteq> []" "?females \<noteq> []"
          and "drawUntil (sameCharacterId (getRandomChar ?males (rnd 0))) ?females rnd 1
                 = Some (Inr female)"
          by (auto simp: getPairing_NORMAL split: if_splits option.splits sum.splits)
        from drawUntil_Inr_drawn [OF this(4)] obtain j
          where "female = getRandomChar ?females (rnd j)" by blast
        with p ne show ?thesis by auto
      next
        case False
        with 1 assms show ?thesis
          by (auto simp: getPairing_NORMAL split: if_splits)
      qed
    next
      case 2
      with assms obtain male2 where p: "p = MaleMale (getRandomChar ?males (rnd 0)) male2"
        and len: "\<not> length ?males < 2"
        and "drawUntil (sameImageOrId subgroup (getRandomChar ?males (rnd 0))) ?males rnd 1
               = Some (Inr male2)"
        by (auto simp: getPairing_MM split: if_splits option.splits sum.splits)
      from drawUntil_Inr_drawn [OF this(3)] obtain j
        where "male2 = getRandomChar ?males (rnd j)" by blast
      moreover from len have "?males \<noteq> []" by auto
      ultimately show ?thesis using p by auto
    next
      case 3
      with assms obtain female2 where p: "p = FemaleFemale (getRandomChar ?females (rnd 0)) female2"
        and len: "\<not> length ?females < 2"
        and "drawUntil (sameImageOrId subgroup (getRandomChar ?females (rnd 0))) ?females rnd 1
               = Some (Inr female2)"
        by (auto simp: getPairing_FF split: if_splits option.splits sum.splits)
      from drawUntil_Inr_drawn [OF this(3)] obtain j
        where "female2 = getRandomChar ?females (rnd j)" by blast
      moreover from len have "?females \<noteq> []" by auto
      ultimately show ?thesis using p by auto
    next
      case 4
      with assms show ?thesis by (simp add: getPairing_other)
    qed
  qed
  then obtain i j where
    c1: "(char1 p = getRandomChar ?males (rnd i) \<and> ?males \<noteq> []) \<or>
         (char1 p = getRandomChar ?females (rnd i) \<and> ?females \<noteq> [])" and
    c2: "(char2 p = getRandomChar ?males (rnd j) \<and> ?males \<noteq> []) \<or>
         (char2 p = getRandomChar ?females (rnd j) \<and> ?females \<noteq> [])" by blast
  have "c \<in> set characters \<and> (subgroup \<noteq> ''all'' \<longrightarrow> subgroup \<in> set (tags c))"
    if "char1 p = Some c \<or> char2 p = Some c" for c
    using that c1 c2 getRandomChar_in_set [of characters subgroup _ c] by metis
  moreover have "\<exists>a b. char1 p = Some a \<and> char2 p = Some b" if "unit_draws rnd"
    using c1 c2 getRandomChar_unit_draws [OF that] by metis
  ultimately show ?thesis by blast
qed

theorem getPairing_members_in_candidate_set_witness:
  "getPairing roster_demo ''pw1'' FF cycle3
     = Some (Inr (Some (FemaleFemale (Some (maya (IdNum 1))) (Some (mia (IdNum 3)))))) \<and>
   maya (IdNum 1) \<in> set roster_demo \<and> ''pw1'' \<in> set (tags (maya (IdNum 1))) \<and>
   mia (IdNum 3) \<in> set roster_demo \<and> ''pw1'' \<in> set (tags (mia (IdNum 3)))"
  using getPairing_members_in_candidate_set [OF demo_pw1_ff] demo_pw1_ff unit_draws_cycle3 by simp

text \<open>
  C10. For a subgroup other than \<open>"all"\<close> and \<open>"game"\<close> the \<open>characterId\<close>
  rule is not enforced: there are a roster, such a subgroup and random numbers in the
  unit interval for which the male-male mode and the female-female mode each return
  two characters with different \<open>image\<close> and equal \<open>characterId\<close>, and the
  opposite-gender mode returns a male and a female with equal \<open>characterId\<close>.
\<close>

theorem getPairing_other_subgroup_shared_characterId:
  "\<exists>characters subgroup rnd.
     unit_draws rnd \<and> subgroup \<noteq> ''all'' \<and> subgroup \<noteq> ''game'' \<and>
     (\<exists>a b. getPairing characters subgroup MM rnd = Some (Inr (Some (MaleMale (Some a) (Some b)))) \<and>
            image a \<noteq> image b \<and> characterId a = characterId b) \<and>
     (\<exists>a b. getPairing characters subgroup FF rnd = Some (Inr (Some (FemaleFemale (Some a) (Some b)))) \<and>
            image a \<noteq> image b \<and> characterId a = characterId b) \<and>
     (\<exists>m f. getPairing characters subgroup NORMAL rnd = Some (Inr (Some (Hetero (Some m) (Some f)))) \<and>
            characterId m = characterId f)"
proof (intro exI conjI)
  show "unit_draws first_then_half" by (rule unit_draws_first_then_half)
  show "''pw1'' \<noteq> ''all''" and "''pw1'' \<noteq> ''game''" by simp_all
  show "getPairing roster_variants ''pw1'' MM first_then_half
          = Some (Inr (Some (MaleMale (Some (roster_variants ! 0)) (Some (roster_variants ! 1)))))"
    by (simp add: getPairing_MM eval_defs drawUntil_stop drawUntil_again)
  show "getPairing roster_variants ''pw1'' FF first_then_half
          = Some (Inr (Some (FemaleFemale (Some (roster_variants ! 2)) (Some (roster_variants ! 3)))))"
    by (simp add: getPairing_FF eval_defs drawUntil_stop drawUntil_again)
  show "getPairing roster_variants ''pw1'' NORMAL first_then_half
          = Some (Inr (Some (Hetero (Some (roster_variants ! 0)) (Some (roster_variants ! 3)))))"
    by (simp add: getPairing_NORMAL eval_defs drawUntil_stop drawUntil_again)
qed (simp_all add: roster_variants_def)

end
